theory Spec2Isabelle
  imports Main
begin

text \<open>
  A shallow embedding of the static file server of \<^verbatim>\<open>srv.go\<close>: the resolution loop of
  \<^verbatim>\<open>FileServer.ServeHTTP\<close>, the three sources \<^verbatim>\<open>PlainFileServer\<close>,
  \<^verbatim>\<open>ZipFileServer\<close> and \<^verbatim>\<open>NotFoundFileServer\<close>, and the helpers
  \<^verbatim>\<open>fileExists\<close>, \<^verbatim>\<open>splitFilePathWithExt\<close> and \<^verbatim>\<open>errNotExistOrPanic\<close>.
  Strings are byte lists, as Go's are. The operating system and the Go library are an
  explicit environment (\<open>world\<close>); what a handler writes goes to an explicit
  connection state (\<open>conn\<close>); a panic is a value.
\<close>

section \<open>The Go library functions the server calls (Unix: the separator is /)\<close>

definition Separator :: char where
  "Separator = CHR ''/''"

text \<open>\<^verbatim>\<open>strings.Split(s, sep)\<close> for a one-byte separator: the pieces between the
  separators, one piece more than there are separators (so never an empty list).\<close>

fun strings_Split :: "string \<Rightarrow> char \<Rightarrow> string list" where
  "strings_Split [] sep = [[]]"
| "strings_Split (c # cs) sep =
     (if c = sep then [] # strings_Split cs sep
      else (case strings_Split cs sep of
              [] \<Rightarrow> [[c]]
            | seg # segs \<Rightarrow> (c # seg) # segs))"

text \<open>\<^verbatim>\<open>strings.Join(elems, sep)\<close>.\<close>

fun strings_Join :: "string list \<Rightarrow> string \<Rightarrow> string" where
  "strings_Join [] sep = []"
| "strings_Join [e] sep = e"
| "strings_Join (e # es) sep = e @ sep @ strings_Join es sep"

text \<open>\<^verbatim>\<open>filepath.Ext(path)\<close>: scanning from the end and stopping at a separator, the
  suffix that starts at the last dot of the final element; empty when there is no dot.
  \<open>ext_scan\<close> is the loop: the index \<open>i\<close> runs down from \<open>len(path) - 1\<close>, and
  \<open>Suc i\<close> is kept so that the loop's exit at \<open>i < 0\<close> is \<open>0\<close>.\<close>

fun ext_scan :: "string \<Rightarrow> nat \<Rightarrow> string" where
  "ext_scan path 0 = []"
| "ext_scan path (Suc i) =
     (if path ! i = Separator then []
      else if path ! i = CHR ''.'' then drop i path
      else ext_scan path i)"

definition filepath_Ext :: "string \<Rightarrow> string" where
  "filepath_Ext path = ext_scan path (length path)"

text \<open>\<^verbatim>\<open>filepath.Clean\<close>. The output buffer \<open>out\<close> holds the bytes written so far
  (\<open>out.w\<close> is its length), \<open>dotdot\<close> is the index below which the buffer may not be
  backtracked, and the first argument of the loop is the unread rest of the path
  (\<open>path[r:]\<close>).\<close>

function backtrack :: "string \<Rightarrow> nat \<Rightarrow> nat \<Rightarrow> nat" where
  "backtrack out dotdot w =
     (if w > dotdot \<and> out ! w \<noteq> Separator then backtrack out dotdot (w - 1) else w)"
  by pat_completeness auto
termination
  by (relation "measure (\<lambda>(out, dotdot, w). w)") auto

declare backtrack.simps [simp del]

function clean_loop :: "bool \<Rightarrow> string \<Rightarrow> string \<Rightarrow> nat \<Rightarrow> string" where
  "clean_loop rooted [] out dotdot = out"
| "clean_loop rooted (c # cs) out dotdot =
     (if c = Separator then
        \<comment> \<open>empty path element\<close>
        clean_loop rooted cs out dotdot
      else if c = CHR ''.'' \<and> (cs = [] \<or> hd cs = Separator) then
        \<comment> \<open>. element\<close>
        clean_loop rooted cs out dotdot
      else if c = CHR ''.'' \<and> cs \<noteq> [] \<and> hd cs = CHR ''.''
              \<and> (tl cs = [] \<or> hd (tl cs) = Separator) then
        \<comment> \<open>.. element: remove to last separator\<close>
        (if length out > dotdot then
           clean_loop rooted (tl cs) (take (backtrack out dotdot (length out - 1)) out) dotdot
         else if \<not> rooted then
           (let out' = (if length out > 0 then out @ [Separator] else out) @ ''..''
            in clean_loop rooted (tl cs) out' (length out'))
         else clean_loop rooted (tl cs) out dotdot)
      else
        \<comment> \<open>real path element: add slash if needed, copy element\<close>
        (let out' = (if rooted \<and> length out \<noteq> 1 \<or> \<not> rooted \<and> length out \<noteq> 0
                     then out @ [Separator] else out)
         in clean_loop rooted (dropWhile (\<lambda>x. x \<noteq> Separator) cs)
              (out' @ c # takeWhile (\<lambda>x. x \<noteq> Separator) cs) dotdot))"
  by pat_completeness auto
termination
  by (relation "measure (\<lambda>(rooted, path, out, dotdot). length path)")
     (auto simp: less_Suc_eq_le length_dropWhile_le)

definition filepath_Clean :: "string \<Rightarrow> string" where
  "filepath_Clean path =
     (if path = [] then ''.''
      else
        (let rooted = (hd path = Separator);
             out = (if rooted then clean_loop True (tl path) [Separator] 1
                    else clean_loop False path [] 0)
         in if out = [] then ''.'' else out))"

text \<open>\<^verbatim>\<open>filepath.Join\<close>: the elements from the first non-empty one on are joined with
  the separator and cleaned; the empty string when every element is empty.\<close>

definition filepath_Join :: "string list \<Rightarrow> string" where
  "filepath_Join elem =
     (case dropWhile (\<lambda>e. e = []) elem of
        [] \<Rightarrow> []
      | es \<Rightarrow> filepath_Clean (strings_Join es [Separator]))"


section \<open>Errors, file information, requests and responses\<close>

text \<open>The error values the code distinguishes. \<^verbatim>\<open>errors.Is(err, fs.ErrNotExist)\<close> holds of
  \<open>ErrNotExist\<close> only and \<^verbatim>\<open>errors.Is(err, fs.ErrPermission)\<close> of \<open>ErrPermission\<close> only;
  \<open>ErrFormat\<close> is \<^verbatim>\<open>zip.ErrFormat\<close> (not a valid zip file), \<open>ErrInvalid\<close> is
  \<^verbatim>\<open>fs.ErrInvalid\<close>, \<open>ErrOther\<close> any other error, by its message.\<close>

datatype go_error = ErrNotExist | ErrPermission | ErrInvalid | ErrFormat | ErrOther string

text \<open>The file types of \<^verbatim>\<open>fs.FileMode\<close> that \<^verbatim>\<open>os.Stat\<close> can report (it follows symbolic
  links, so there is no symlink mode).\<close>

datatype FileMode =
  ModeRegular | ModeDir | ModeNamedPipe | ModeSocket | ModeDevice | ModeCharDevice | ModeIrregular

record FileInfo =
  Mode :: FileMode
  Size :: nat

definition IsDir :: "FileInfo \<Rightarrow> bool" where
  "IsDir fi = (Mode fi = ModeDir)"

definition IsRegular :: "FileInfo \<Rightarrow> bool" where
  "IsRegular fi = (Mode fi = ModeRegular)"

record request =
  Method :: string
  URL_Path :: string

text \<open>The state of an \<^verbatim>\<open>http.ResponseWriter\<close>: the status code once \<^verbatim>\<open>WriteHeader\<close> has
  run (the server sends 200 when the handler returns without one), the header map and the
  bytes written to the body.\<close>

record response =
  status :: "nat option"
  header :: "string \<rightharpoonup> string"
  body :: string

definition new_response :: response where
  "new_response = \<lparr>status = None, header = Map.empty, body = []\<rparr>"

definition sent_status :: "response \<Rightarrow> nat" where
  "sent_status rew = (case status rew of None \<Rightarrow> 200 | Some code \<Rightarrow> code)"

definition WriteHeader :: "nat \<Rightarrow> response \<Rightarrow> response" where
  "WriteHeader code rew = (case status rew of None \<Rightarrow> rew\<lparr>status := Some code\<rparr> | Some _ \<Rightarrow> rew)"

definition Write :: "string \<Rightarrow> response \<Rightarrow> response" where
  "Write bytes rew = (let rew' = WriteHeader 200 rew in rew'\<lparr>body := body rew' @ bytes\<rparr>)"

definition Header_Set :: "string \<Rightarrow> string \<Rightarrow> response \<Rightarrow> response" where
  "Header_Set k v rew = rew\<lparr>header := (header rew)(k \<mapsto> v)\<rparr>"

text \<open>\<^verbatim>\<open>http.Error(w, error, code)\<close>: sets the content type to plain text, writes the status
  code, and prints the message with \<^verbatim>\<open>fmt.Fprintln\<close>, that is followed by a newline.\<close>

definition http_Error :: "string \<Rightarrow> nat \<Rightarrow> response \<Rightarrow> response" where
  "http_Error msg code rew =
     Write (msg @ [CHR 0x0A])
       (WriteHeader code
         (Header_Set ''X-Content-Type-Options'' ''nosniff''
           (Header_Set ''Content-Type'' ''text/plain; charset=utf-8'' rew)))"

text \<open>\<^verbatim>\<open>io.Copy(rew, file)\<close> of a file that yields \<open>bytes\<close>: nothing is written for an
  empty file.\<close>

definition io_Copy :: "string \<Rightarrow> response \<Rightarrow> response" where
  "io_Copy bytes rew = (if bytes = [] then rew else Write bytes rew)"

section \<open>The environment\<close>

text \<open>Every call into the operating system or the library is recorded, in order.\<close>

datatype access =
  StatCall string
  | OpenReaderCall string
  | EntryOpenCall string string
  | ServeFileCall string string
  | MimeCall string

text \<open>What the code reads of its environment: the result of \<^verbatim>\<open>os.Stat\<close> at each path, of
  \<^verbatim>\<open>zip.OpenReader\<close> at each path (an error, or the archive: the result of
  \<^verbatim>\<open>Reader.Open\<close> at each entry name, an error or the entry's bytes), what
  \<^verbatim>\<open>http.ServeFile\<close> makes of a response for a request and a file name, and the table
  of \<^verbatim>\<open>mime.TypeByExtension\<close>.\<close>

record world =
  stat_of :: "string \<Rightarrow> go_error + FileInfo"
  zip_of :: "string \<Rightarrow> go_error + (string \<Rightarrow> go_error + string)"
  serve_of :: "request \<Rightarrow> string \<Rightarrow> response \<Rightarrow> response"
  mime_of :: "string \<Rightarrow> string"

text \<open>\<^verbatim>\<open>os.Stat\<close>: the empty name is no file (ENOENT).\<close>

definition os_Stat :: "world \<Rightarrow> string \<Rightarrow> go_error + FileInfo" where
  "os_Stat w name = (if name = [] then Inl ErrNotExist else stat_of w name)"

definition zip_OpenReader :: "world \<Rightarrow> string \<Rightarrow> go_error + (string \<Rightarrow> go_error + string)" where
  "zip_OpenReader w name = zip_of w name"

definition mime_TypeByExtension :: "world \<Rightarrow> string \<Rightarrow> string" where
  "mime_TypeByExtension w ext = mime_of w ext"

text \<open>What a handler can touch: the response writer, the request (whose URL path the
  archive source overwrites) and the record of the calls made.\<close>

record conn =
  rew :: response
  req :: request
  trace :: "access list"

definition logged :: "access list \<Rightarrow> conn \<Rightarrow> conn" where
  "logged acc st = st\<lparr>trace := trace st @ acc\<rparr>"

definition http_ServeFile :: "world \<Rightarrow> string \<Rightarrow> conn \<Rightarrow> conn" where
  "http_ServeFile w name st =
     logged [ServeFileCall (URL_Path (req st)) name] (st\<lparr>rew := serve_of w (req st) name (rew st)\<rparr>)"

text \<open>A panic is either \<^verbatim>\<open>panic(err)\<close> or the run-time panic of a nil dereference.\<close>

datatype panic = PanicErr go_error | NilDereference

section \<open>The sources\<close>

definition ZIP_EXT :: string where
  "ZIP_EXT = ''.zip''"

definition fpj :: "string list \<Rightarrow> string" where
  "fpj path = filepath_Join path"

text \<open>\<^verbatim>\<open>fileExists\<close>: the answer, and the calls made to find it.\<close>

definition fileExists :: "world \<Rightarrow> string \<Rightarrow> bool \<times> access list" where
  "fileExists w filePath =
     ((case os_Stat w filePath of Inl err \<Rightarrow> False | Inr stat \<Rightarrow> \<not> IsDir stat),
      [StatCall filePath])"

text \<open>The loop of \<^verbatim>\<open>splitFilePathWithExt\<close> over the indices of \<open>vals\<close>; the named results
  start empty.\<close>

function splitLoop :: "string list \<Rightarrow> string \<Rightarrow> nat \<Rightarrow> string \<times> string" where
  "splitLoop vals ext ind =
     (if ind < length vals then
        (if filepath_Ext (vals ! ind) = ext
         then (filepath_Join (take (ind + 1) vals), filepath_Join (drop (ind + 1) vals))
         else splitLoop vals ext (ind + 1))
      else ([], []))"
  by pat_completeness auto
termination
  by (relation "measure (\<lambda>(vals, ext, ind). length vals - ind)") auto

declare splitLoop.simps [simp del]

definition splitFilePathWithExt :: "string \<Rightarrow> string \<Rightarrow> string \<times> string" where
  "splitFilePathWithExt val ext = splitLoop (strings_Split val Separator) ext 0"

text \<open>\<^verbatim>\<open>errNotExistOrPanic\<close>: \<open>False\<close> for the two error classes, a panic otherwise; it never
  returns \<open>True\<close>.\<close>

definition errNotExistOrPanic :: "go_error \<Rightarrow> panic + bool" where
  "errNotExistOrPanic err =
     (if err = ErrNotExist \<or> err = ErrPermission then Inr False else Inl (PanicErr err))"

text \<open>The interface \<^verbatim>\<open>FileServable\<close>: a value of it is its two methods. \<^verbatim>\<open>FileExists\<close>
  sees the path only and gives its answer together with the calls it made; \<^verbatim>\<open>ServeFile\<close>
  works on the connection and may panic.\<close>

record FileServable =
  FileExists :: "world \<Rightarrow> string \<Rightarrow> bool \<times> access list"
  ServeFile :: "world \<Rightarrow> string \<Rightarrow> conn \<Rightarrow> panic + conn"

definition NotFoundFileServer_filePath :: "string \<Rightarrow> string" where
  "NotFoundFileServer_filePath self = fpj [self, ''404.html'']"

definition NotFoundFileServer_FileExists :: "string \<Rightarrow> world \<Rightarrow> string \<Rightarrow> bool \<times> access list" where
  "NotFoundFileServer_FileExists self w filePath = fileExists w (NotFoundFileServer_filePath self)"

definition NotFoundFileServer_ServeFile :: "string \<Rightarrow> world \<Rightarrow> string \<Rightarrow> conn \<Rightarrow> panic + conn" where
  "NotFoundFileServer_ServeFile self w filePath st =
     Inr (http_ServeFile w (NotFoundFileServer_filePath self) st)"

definition NotFoundFileServer :: "string \<Rightarrow> FileServable" where
  "NotFoundFileServer self =
     \<lparr>FileExists = NotFoundFileServer_FileExists self, ServeFile = NotFoundFileServer_ServeFile self\<rparr>"

definition PlainFileServer_FileExists :: "string \<Rightarrow> world \<Rightarrow> string \<Rightarrow> bool \<times> access list" where
  "PlainFileServer_FileExists self w filePath = fileExists w filePath"

definition PlainFileServer_ServeFile :: "string \<Rightarrow> world \<Rightarrow> string \<Rightarrow> conn \<Rightarrow> panic + conn" where
  "PlainFileServer_ServeFile self w filePath st = Inr (http_ServeFile w filePath st)"

definition PlainFileServer :: "string \<Rightarrow> FileServable" where
  "PlainFileServer self =
     \<lparr>FileExists = PlainFileServer_FileExists self, ServeFile = PlainFileServer_ServeFile self\<rparr>"

definition ZipFileServer_FileExists :: "string \<Rightarrow> world \<Rightarrow> string \<Rightarrow> bool \<times> access list" where
  "ZipFileServer_FileExists self w filePath =
     fileExists w (fst (splitFilePathWithExt filePath ZIP_EXT))"

text \<open>\<^verbatim>\<open>ZipFileServer.ServeFile\<close>. When \<^verbatim>\<open>errNotExistOrPanic\<close> returns false the code goes
  on past the \<^verbatim>\<open>if\<close>: after a failed \<^verbatim>\<open>zip.OpenReader\<close> the reader is nil and
  \<^verbatim>\<open>zipReader.Open\<close> dereferences it; after a failed \<^verbatim>\<open>zipReader.Open\<close> the file is nil
  and \<^verbatim>\<open>io.Copy\<close> reads from it.\<close>

definition ZipFileServer_ServeFile :: "string \<Rightarrow> world \<Rightarrow> string \<Rightarrow> conn \<Rightarrow> panic + conn" where
  "ZipFileServer_ServeFile self w filePath st =
     (let (zipFilePath, inZipFilePath) = splitFilePathWithExt filePath ZIP_EXT;
          st1 = logged [OpenReaderCall zipFilePath] st
      in case zip_OpenReader w zipFilePath of
           Inl err \<Rightarrow>
             (case errNotExistOrPanic err of
                Inl p \<Rightarrow> Inl p
              | Inr True \<Rightarrow> NotFoundFileServer_ServeFile self w filePath st1
              | Inr False \<Rightarrow> Inl NilDereference)
         | Inr zipReader \<Rightarrow>
             (let st2 = logged [EntryOpenCall zipFilePath inZipFilePath]
                          (st1\<lparr>req := (req st1)\<lparr>URL_Path := inZipFilePath\<rparr>\<rparr>)
              in case zipReader inZipFilePath of
                   Inl err \<Rightarrow>
                     (case errNotExistOrPanic err of
                        Inl p \<Rightarrow> Inl p
                      | Inr True \<Rightarrow> NotFoundFileServer_ServeFile self w filePath st2
                      | Inr False \<Rightarrow> Inl NilDereference)
                 | Inr file \<Rightarrow>
                     (let ext = filepath_Ext inZipFilePath;
                          st3 = logged [MimeCall ext] st2
                      in Inr (st3\<lparr>rew := io_Copy file
                                (Header_Set ''Content-Type'' (mime_TypeByExtension w ext) (rew st3))\<rparr>))))"

definition ZipFileServer :: "string \<Rightarrow> FileServable" where
  "ZipFileServer self =
     \<lparr>FileExists = ZipFileServer_FileExists self, ServeFile = ZipFileServer_ServeFile self\<rparr>"

section \<open>The server\<close>

record FileServer =
  Dir :: string
  Handlers :: "FileServable list"

text \<open>\<^verbatim>\<open>AppendHandler\<close> has a pointer receiver: the first component is the receiver after
  the call, the second the value returned.\<close>

definition AppendHandler :: "FileServer \<Rightarrow> FileServable \<Rightarrow> FileServer \<times> FileServer" where
  "AppendHandler self handler =
     (let self' = self\<lparr>Handlers := Handlers self @ [handler]\<rparr> in (self', self'))"

text \<open>One existence test of the loop: the answer, and the state with the test's calls
  recorded.\<close>

definition probe :: "FileServable \<Rightarrow> world \<Rightarrow> string \<Rightarrow> conn \<Rightarrow> bool \<times> conn" where
  "probe han w path st = (fst (FileExists han w path), logged (snd (FileExists han w path)) st)"

text \<open>The loop \<^verbatim>\<open>for _, han := range hans\<close> of \<^verbatim>\<open>ServeHTTP\<close>. Falling off the end of the
  list returns from the handler with nothing written.\<close>

fun ServeHTTP_loop :: "world \<Rightarrow> FileServable list \<Rightarrow> string \<Rightarrow> conn \<Rightarrow> panic + conn" where
  "ServeHTTP_loop w [] filePath st = Inr st"
| "ServeHTTP_loop w (han # hans) filePath st =
     (let (found, st1) = probe han w filePath st in
      if found then ServeFile han w filePath st1
      else
        let candidatePath = filePath @ ''.html'';
            (found, st2) = probe han w candidatePath st1 in
        if found then ServeFile han w candidatePath st2
        else
          let candidatePath = fpj [filePath, ''index.html''];
              (found, st3) = probe han w candidatePath st2 in
          if found then ServeFile han w candidatePath st3
          else ServeHTTP_loop w hans filePath st3)"

definition ServeHTTP :: "FileServer \<Rightarrow> world \<Rightarrow> conn \<Rightarrow> panic + conn" where
  "ServeHTTP self w st =
     (if Method (req st) = ''GET'' then
        (let dir = Dir self;
             reqPath = URL_Path (req st);
             filePath = fpj [dir, reqPath];
             hans = PlainFileServer (Dir self) # Handlers self
         in ServeHTTP_loop w hans filePath st)
      else if Method (req st) = ''HEAD'' \<or> Method (req st) = ''OPTIONS'' then Inr st
      else Inr (st\<lparr>rew := http_Error [] 405 (rew st)\<rparr>))"

text \<open>A connection at the start of a request.\<close>

definition new_conn :: "string \<Rightarrow> string \<Rightarrow> conn" where
  "new_conn method path =
     \<lparr>rew = new_response, req = \<lparr>Method = method, URL_Path = path\<rparr>, trace = []\<rparr>"


section \<open>Notions used to state the properties\<close>

text \<open>The candidate paths that one source is asked about, in the order of the loop.\<close>

definition candidates :: "string \<Rightarrow> string list" where
  "candidates filePath = [filePath, filePath @ ''.html'', fpj [filePath, ''index.html'']]"

definition exists_in :: "FileServable \<Rightarrow> world \<Rightarrow> string \<Rightarrow> bool" where
  "exists_in han w path = fst (FileExists han w path)"

text \<open>The calls made by asking a source about each path of a list, in order.\<close>

definition calls_of :: "FileServable \<Rightarrow> world \<Rightarrow> string list \<Rightarrow> access list" where
  "calls_of han w paths = concat (map (\<lambda>path. snd (FileExists han w path)) paths)"

definition misses :: "FileServable \<Rightarrow> world \<Rightarrow> string \<Rightarrow> bool" where
  "misses han w filePath = list_all (\<lambda>c. \<not> exists_in han w c) (candidates filePath)"

text \<open>A path that does not start at the root.\<close>

definition unrooted :: "string \<Rightarrow> bool" where
  "unrooted out = (out = [] \<or> hd out \<noteq> Separator)"


section \<open>Example environments\<close>

text \<open>A small stand-in for \<^verbatim>\<open>http.ServeFile\<close> in the examples: the bytes of the named file,
  or the library's 404 reply.\<close>

definition demo_serve :: "(string \<rightharpoonup> string) \<Rightarrow> request \<Rightarrow> string \<Rightarrow> response \<Rightarrow> response" where
  "demo_serve content r name resp =
     (case content name of
        None \<Rightarrow> http_Error ''404 page not found'' 404 resp
      | Some bytes \<Rightarrow> Write bytes resp)"

text \<open>An environment from a list of files (path, type, bytes) and a list of archives (path,
  and an error or the entries by name; the empty name is not a valid entry name).\<close>

definition mk_world ::
  "(string \<times> FileMode \<times> string) list \<Rightarrow> (string \<times> (go_error + (string \<times> string) list)) list
   \<Rightarrow> world" where
  "mk_world files zips =
     \<lparr>stat_of = (\<lambda>p. case map_of files p of
                       None \<Rightarrow> Inl ErrNotExist
                     | Some (m, bytes) \<Rightarrow> Inr \<lparr>Mode = m, Size = length bytes\<rparr>),
      zip_of = (\<lambda>p. case map_of zips p of
                      None \<Rightarrow> Inl ErrNotExist
                    | Some (Inl e) \<Rightarrow> Inl e
                    | Some (Inr entries) \<Rightarrow>
                        Inr (\<lambda>n. if n = [] then Inl ErrInvalid
                                 else case map_of entries n of
                                        None \<Rightarrow> Inl ErrNotExist
                                      | Some b \<Rightarrow> Inr b)),
      serve_of = demo_serve (\<lambda>p. map_option snd (map_of files p)),
      mime_of = (\<lambda>e. if e = ''.html'' then ''text/html; charset=utf-8'' else [])\<rparr>"


definition dev_world :: world where
  "dev_world = mk_world [(''/dev/null'', ModeCharDevice, [])] []"

definition site_world :: world where
  "site_world =
     mk_world [(''/srv/404.html'', ModeRegular, ''gone''),
               (''/srv/x.html'', ModeRegular, ''page x''),
               (''/srv/notes.txt.html'', ModeRegular, ''notes''),
               (''/srv/docs'', ModeDir, []),
               (''/srv/docs/index.html'', ModeRegular, ''docs'')] []"

definition zip_world :: world where
  "zip_world =
     mk_world [(''srv/a.zip'', ModeRegular, ''PK''), (''srv/bad.zip'', ModeRegular, ''junk'')]
              [(''srv/a.zip'', Inr [(''public/index.html'', ''hello'')]),
               (''srv/bad.zip'', Inl ErrFormat),
               (''srv/locked.zip'', Inl (ErrOther ''input/output error''))]"

section \<open>The loop of the split\<close>


lemma splitLoop_first:
  "ind \<le> i \<Longrightarrow> i < length vals \<Longrightarrow> filepath_Ext (vals ! i) = ext
   \<Longrightarrow> (\<And>j. ind \<le> j \<Longrightarrow> j < i \<Longrightarrow> filepath_Ext (vals ! j) \<noteq> ext)
   \<Longrightarrow> splitLoop vals ext ind
       = (filepath_Join (take (Suc i) vals), filepath_Join (drop (Suc i) vals))"
proof (induction vals ext ind rule: splitLoop.induct)
  case (1 vals ext ind)
  have lt: "ind < length vals" using "1.prems" by simp
  show ?case
  proof (cases "ind = i")
    case True
    then show ?thesis using "1.prems" lt by (subst splitLoop.simps) simp
  next
    case False
    then have less: "ind < i" using "1.prems" by simp
    then have ne: "filepath_Ext (vals ! ind) \<noteq> ext" using "1.prems" by simp
    have "splitLoop vals ext (ind + 1)
          = (filepath_Join (take (Suc i) vals), filepath_Join (drop (Suc i) vals))"
      using "1.IH" [OF lt ne] "1.prems" less by simp
    then show ?thesis using lt ne by (subst splitLoop.simps) simp
  qed
qed

lemma first_index_with_ext:
  assumes "\<exists>seg \<in> set vals. filepath_Ext seg = ext"
  shows "\<exists>i. i < length vals \<and> filepath_Ext (vals ! i) = ext
              \<and> (\<forall>j. j < i \<longrightarrow> filepath_Ext (vals ! j) \<noteq> ext)"
proof -
  let ?P = "\<lambda>i. i < length vals \<and> filepath_Ext (vals ! i) = ext"
  have ex: "\<exists>i. ?P i" using assms by (auto simp: in_set_conv_nth)
  define i where "i = (LEAST i. ?P i)"
  have Pi: "?P i" unfolding i_def using ex by (rule LeastI_ex)
  have first: "filepath_Ext (vals ! j) \<noteq> ext" if "j < i" for j
  proof
    assume "filepath_Ext (vals ! j) = ext"
    then have "?P j" using that Pi by simp
    then have "i \<le> j" unfolding i_def by (rule Least_le)
    then show False using that by simp
  qed
  show ?thesis using Pi first by blast
qed

section \<open>Segments and cleaned paths\<close>

lemma split_no_sep: "seg \<in> set (strings_Split s sep) \<Longrightarrow> sep \<notin> set seg"
  by (induction s sep arbitrary: seg rule: strings_Split.induct)
     (auto split: if_splits list.splits)

lemma unrooted_Nil: "unrooted []"
  by (simp add: unrooted_def)

lemma unrooted_Cons: "unrooted (c # cs) = (c \<noteq> Separator)"
  by (simp add: unrooted_def)

lemma unrooted_append: "unrooted out \<Longrightarrow> out \<noteq> [] \<Longrightarrow> unrooted (out @ xs)"
  by (cases out) (auto simp: unrooted_def)

lemma unrooted_take: "unrooted out \<Longrightarrow> unrooted (take n out)"
  by (cases out; cases n) (auto simp: unrooted_def)

lemma dot_not_sep: "CHR ''.'' \<noteq> Separator"
  by (simp add: Separator_def)

lemma clean_loop_unrooted:
  "unrooted out \<Longrightarrow> unrooted (clean_loop False path out dotdot)"
proof (induction "False" path out dotdot rule: clean_loop.induct)
  case (1 out dotdot)
  then show ?case by simp
next
  case (2 c cs out dotdot)
  show ?case
  proof (cases "c = Separator")
    case True
    have "unrooted (clean_loop False cs out dotdot)"
      using "2.hyps"(1) [OF True "2.prems"] .
    then show ?thesis by (simp only: clean_loop.simps if_P [OF True])
  next
    case ns: False
    show ?thesis
    proof (cases "c = CHR ''.'' \<and> (cs = [] \<or> hd cs = Separator)")
      case True
      have "unrooted (clean_loop False cs out dotdot)"
        using "2.hyps"(2) [OF ns True "2.prems"] .
      then show ?thesis by (simp only: clean_loop.simps if_not_P [OF ns] if_P [OF True])
    next
      case nd: False
      show ?thesis
      proof (cases "c = CHR ''.'' \<and> cs \<noteq> [] \<and> hd cs = CHR ''.''
                    \<and> (tl cs = [] \<or> hd (tl cs) = Separator)")
        case dd: True
        show ?thesis
        proof (cases "length out > dotdot")
          case True
          have "unrooted (take (backtrack out dotdot (length out - 1)) out)"
            using "2.prems" by (rule unrooted_take)
          then have "unrooted (clean_loop False (tl cs)
                  (take (backtrack out dotdot (length out - 1)) out) dotdot)"
            by (rule "2.hyps"(3) [OF ns nd dd True])
          then show ?thesis
            by (simp only: clean_loop.simps if_not_P [OF ns] if_not_P [OF nd] if_P [OF dd]
                  if_P [OF True])
        next
          case False
          define out' where "out' = (if length out > 0 then out @ [Separator] else out) @ ''..''"
          have "unrooted out'"
            using "2.prems" unfolding out'_def
            by (cases out) (simp_all add: unrooted_def dot_not_sep)
          then have "unrooted (clean_loop False (tl cs) out' (length out'))"
            by (rule "2.hyps"(4) [OF ns nd dd False not_False_eq_True [THEN iffD2, OF TrueI] out'_def])
          then show ?thesis
            by (simp only: clean_loop.simps if_not_P [OF ns] if_not_P [OF nd] if_P [OF dd]
                  if_not_P [OF False] not_False_eq_True if_True Let_def out'_def)
        qed
      next
        case real: False
        define out' where "out' = (if False \<and> length out \<noteq> 1 \<or> \<not> False \<and> length out \<noteq> 0
                                   then out @ [Separator] else out)"
        define seg where "seg = c # takeWhile (\<lambda>x. x \<noteq> Separator) cs"
        have "unrooted (out' @ seg)"
          using "2.prems" ns unfolding out'_def seg_def
          by (cases out) (simp_all add: unrooted_def)
        then have "unrooted (clean_loop False (dropWhile (\<lambda>x. x \<noteq> Separator) cs)
                     (out' @ c # takeWhile (\<lambda>x. x \<noteq> Separator) cs) dotdot)"
          unfolding seg_def by (rule "2.hyps"(6) [OF ns nd real out'_def])
        then show ?thesis
          by (simp only: clean_loop.simps if_not_P [OF ns] if_not_P [OF nd] if_not_P [OF real]
                Let_def out'_def seg_def)
      qed
    qed
  qed
qed

lemma Clean_unrooted:
  assumes "path = [] \<or> hd path \<noteq> Separator"
  shows "filepath_Clean path \<noteq> [] \<and> hd (filepath_Clean path) \<noteq> Separator"
proof (cases "path = []")
  case True
  then show ?thesis by (simp add: filepath_Clean_def dot_not_sep)
next
  case False
  then have nr: "hd path \<noteq> Separator" using assms by simp
  have "unrooted (clean_loop False path [] 0)"
    by (rule clean_loop_unrooted) (rule unrooted_Nil)
  then show ?thesis using False nr
    by (auto simp: filepath_Clean_def Let_def unrooted_def dot_not_sep)
qed

lemma strings_Join_hd:
  "e \<noteq> [] \<Longrightarrow> strings_Join (e # es) sep \<noteq> [] \<and> hd (strings_Join (e # es) sep) = hd e"
  by (cases es) auto

lemma Join_unrooted:
  assumes segs: "\<And>e. e \<in> set elem \<Longrightarrow> Separator \<notin> set e"
    and ne: "\<exists>e \<in> set elem. e \<noteq> []"
  shows "filepath_Join elem \<noteq> [] \<and> hd (filepath_Join elem) \<noteq> Separator"
proof -
  let ?rest = "dropWhile (\<lambda>e. e = []) elem"
  have rest: "?rest \<noteq> []" using ne by (simp add: dropWhile_eq_Nil_conv)
  then obtain e es where d: "?rest = e # es" by (cases ?rest) simp_all
  have "\<not> (\<lambda>e. e = []) (hd ?rest)" using rest by (rule hd_dropWhile)
  then have e: "e \<noteq> []" unfolding d by simp
  have "e \<in> set ?rest" unfolding d by simp
  then have "e \<in> set elem" by (rule set_dropWhileD)
  then have "Separator \<notin> set e" by (rule segs)
  moreover have "hd e \<in> set e" using e by (rule hd_in_set)
  ultimately have "hd e \<noteq> Separator" by auto
  then have "hd (strings_Join (e # es) [Separator]) \<noteq> Separator"
    using strings_Join_hd [OF e, of es "[Separator]"] by simp
  then have "strings_Join (e # es) [Separator] = [] \<or> hd (strings_Join (e # es) [Separator]) \<noteq> Separator"
    by (rule disjI2)
  then have "filepath_Clean (strings_Join (e # es) [Separator]) \<noteq> []
             \<and> hd (filepath_Clean (strings_Join (e # es) [Separator])) \<noteq> Separator"
    by (rule Clean_unrooted)
  moreover have "filepath_Join elem = filepath_Clean (strings_Join (e # es) [Separator])"
    unfolding filepath_Join_def d by (simp only: list.case)
  ultimately show ?thesis by simp
qed

lemma Ext_Nil: "filepath_Ext [] = []"
  by (simp add: filepath_Ext_def)

lemma fileExists_fst:
  "fst (fileExists w p) = (\<exists>fi. os_Stat w p = Inr fi \<and> \<not> IsDir fi)"
  by (cases "os_Stat w p") (simp_all add: fileExists_def)


section \<open>A cleaned path ends with its last segment\<close>












section \<open>The split at the archive\<close>

text \<open>
  C10. For every path that has a segment with the extension \<^verbatim>\<open>.zip\<close>, the archive locator
  returned by \<^verbatim>\<open>splitFilePathWithExt\<close> is not empty and does not begin with the path
  separator, whether or not the path given is absolute: the empty segment in front of
  the first separator is dropped when the segments are joined again, so the locator of an
  absolute path is a relative path.
\<close>

theorem split_locator_relative:
  assumes "\<exists>seg \<in> set (strings_Split val Separator). filepath_Ext seg = ZIP_EXT"
  shows "fst (splitFilePathWithExt val ZIP_EXT) \<noteq> []
         \<and> hd (fst (splitFilePathWithExt val ZIP_EXT)) \<noteq> Separator"
proof -
  let ?vals = "strings_Split val Separator"
  obtain i where i: "i < length ?vals" and hit: "filepath_Ext (?vals ! i) = ZIP_EXT"
    and first: "\<And>j. j < i \<Longrightarrow> filepath_Ext (?vals ! j) \<noteq> ZIP_EXT"
    using first_index_with_ext [OF assms] by blast
  have arch: "fst (splitFilePathWithExt val ZIP_EXT) = filepath_Join (take (Suc i) ?vals)"
    using splitLoop_first [of 0 i ?vals ZIP_EXT] i hit first
    by (simp add: splitFilePathWithExt_def)
  have "?vals ! i \<noteq> []" using hit by (auto simp: Ext_Nil ZIP_EXT_def)
  moreover have "?vals ! i \<in> set (take (Suc i) ?vals)"
    using i by (auto simp: in_set_conv_nth intro!: exI [of _ i])
  ultimately have ne: "\<exists>e \<in> set (take (Suc i) ?vals). e \<noteq> []" by blast
  have segs: "\<And>e. e \<in> set (take (Suc i) ?vals) \<Longrightarrow> Separator \<notin> set e"
    by (meson in_set_takeD split_no_sep)
  show ?thesis unfolding arch using Join_unrooted [OF segs ne] by simp
qed

theorem split_locator_relative_witness:
  "splitFilePathWithExt ''/report/archive.zip/public/index.html'' ZIP_EXT
     = (''report/archive.zip'', ''public/index.html'')
   \<and> fst (splitFilePathWithExt ''/report/archive.zip/public/index.html'' ZIP_EXT) \<noteq> []
   \<and> hd (fst (splitFilePathWithExt ''/report/archive.zip/public/index.html'' ZIP_EXT)) \<noteq> Separator"
proof -
  have segs: "strings_Split ''/report/archive.zip/public/index.html'' Separator
              = [[], ''report'', ''archive.zip'', ''public'', ''index.html'']"
    by (simp add: Separator_def)
  have "\<exists>seg \<in> set (strings_Split ''/report/archive.zip/public/index.html'' Separator).
          filepath_Ext seg = ZIP_EXT"
    unfolding segs by (simp add: filepath_Ext_def ZIP_EXT_def Separator_def)
  from split_locator_relative [OF this]
  have "fst (splitFilePathWithExt ''/report/archive.zip/public/index.html'' ZIP_EXT) \<noteq> []
        \<and> hd (fst (splitFilePathWithExt ''/report/archive.zip/public/index.html'' ZIP_EXT)) \<noteq> Separator" .
  moreover have "splitFilePathWithExt ''/report/archive.zip/public/index.html'' ZIP_EXT
     = (''report/archive.zip'', ''public/index.html'')"
    unfolding splitFilePathWithExt_def segs
    by (simp add: splitLoop.simps filepath_Ext_def ZIP_EXT_def Separator_def
          filepath_Join_def filepath_Clean_def)
  ultimately show ?thesis by blast
qed

section \<open>The resolution loop, one source at a time\<close>

lemma logged_Nil: "logged [] st = st"
  by (simp add: logged_def)

lemma logged_logged: "logged b (logged a st) = logged (a @ b) st"
  by (simp add: logged_def)

lemma logged_fields: "rew (logged a st) = rew st" "req (logged a st) = req st"
  "trace (logged a st) = trace st @ a"
  by (simp_all add: logged_def)

lemma probe_eq: "probe han w path st = (exists_in han w path, logged (calls_of han w [path]) st)"
  by (simp add: probe_def exists_in_def calls_of_def)

lemma calls_of_append: "calls_of han w (xs @ ys) = calls_of han w xs @ calls_of han w ys"
  by (simp add: calls_of_def)

lemma calls_of_candidates:
  "calls_of han w (candidates filePath)
   = calls_of han w [filePath] @ calls_of han w [filePath @ ''.html'']
     @ calls_of han w [fpj [filePath, ''index.html'']]"
  by (simp add: calls_of_def candidates_def)

lemma loop_hit_exact:
  assumes "exists_in han w filePath"
  shows "ServeHTTP_loop w (han # hans) filePath st
         = ServeFile han w filePath (logged (calls_of han w [filePath]) st)"
  using assms by (simp add: probe_eq)

lemma loop_hit_html:
  assumes "\<not> exists_in han w filePath" and "exists_in han w (filePath @ ''.html'')"
  shows "ServeHTTP_loop w (han # hans) filePath st
         = ServeFile han w (filePath @ ''.html'')
             (logged (calls_of han w [filePath, filePath @ ''.html'']) st)"
proof -
  have "calls_of han w [filePath, filePath @ ''.html'']
        = calls_of han w [filePath] @ calls_of han w [filePath @ ''.html'']"
    by (simp add: calls_of_def)
  then show ?thesis using assms by (simp add: probe_eq logged_logged Let_def)
qed

lemma loop_hit_index:
  assumes "\<not> exists_in han w filePath" and "\<not> exists_in han w (filePath @ ''.html'')"
    and "exists_in han w (fpj [filePath, ''index.html''])"
  shows "ServeHTTP_loop w (han # hans) filePath st
         = ServeFile han w (fpj [filePath, ''index.html''])
             (logged (calls_of han w (candidates filePath)) st)"
  using assms by (simp add: probe_eq logged_logged calls_of_candidates Let_def)

lemma loop_miss:
  assumes "misses han w filePath"
  shows "ServeHTTP_loop w (han # hans) filePath st
         = ServeHTTP_loop w hans filePath (logged (calls_of han w (candidates filePath)) st)"
proof -
  have "\<not> exists_in han w filePath" "\<not> exists_in han w (filePath @ ''.html'')"
    "\<not> exists_in han w (fpj [filePath, ''index.html''])"
    using assms by (simp_all add: misses_def candidates_def)
  then show ?thesis by (simp add: probe_eq logged_logged calls_of_candidates Let_def)
qed

lemma loop_hit:
  assumes split: "candidates filePath = cpre @ c # cpost"
    and before: "list_all (\<lambda>c'. \<not> exists_in han w c') cpre"
    and hit: "exists_in han w c"
  shows "ServeHTTP_loop w (han # hans) filePath st
         = ServeFile han w c (logged (calls_of han w (cpre @ [c])) st)"
proof -
  have three: "[filePath, filePath @ ''.html'', fpj [filePath, ''index.html'']] = cpre @ c # cpost"
    using split by (simp add: candidates_def)
  consider (exact) "cpre = []" "c = filePath"
    | (html) "cpre = [filePath]" "c = filePath @ ''.html''"
    | (index) "cpre = [filePath, filePath @ ''.html'']" "c = fpj [filePath, ''index.html'']"
    using three by (auto simp: Cons_eq_append_conv)
  then show ?thesis
  proof cases
    case exact
    then show ?thesis using hit loop_hit_exact [of han w filePath hans st] by simp
  next
    case html
    then show ?thesis using hit before loop_hit_html [of han w filePath hans st] by simp
  next
    case index
    then show ?thesis
      using hit before loop_hit_index [of han w filePath hans st]
      by (simp add: candidates_def)
  qed
qed

lemma loop_skip:
  "list_all (\<lambda>h. misses h w filePath) pre
   \<Longrightarrow> ServeHTTP_loop w (pre @ rest) filePath st
       = ServeHTTP_loop w rest filePath
           (logged (concat (map (\<lambda>h. calls_of h w (candidates filePath)) pre)) st)"
proof (induction pre arbitrary: st)
  case Nil
  show ?case by (simp add: logged_Nil)
next
  case (Cons h pre)
  have m: "misses h w filePath" and rest: "list_all (\<lambda>h. misses h w filePath) pre"
    using Cons.prems by simp_all
  have "ServeHTTP_loop w ((h # pre) @ rest) filePath st
        = ServeHTTP_loop w (pre @ rest) filePath (logged (calls_of h w (candidates filePath)) st)"
    using loop_miss [OF m, of "pre @ rest" st] by simp
  also have "\<dots> = ServeHTTP_loop w rest filePath
        (logged (concat (map (\<lambda>h. calls_of h w (candidates filePath)) pre))
           (logged (calls_of h w (candidates filePath)) st))"
    by (rule Cons.IH [OF rest])
  finally show ?case by (simp add: logged_logged)
qed

lemma loop_all_miss:
  assumes "list_all (\<lambda>h. misses h w filePath) hans"
  shows "ServeHTTP_loop w hans filePath st
         = Inr (logged (concat (map (\<lambda>h. calls_of h w (candidates filePath)) hans)) st)"
  using loop_skip [OF assms, of "[]" st] by simp

lemma loop_first_hit:
  assumes "list_all (\<lambda>h. misses h w filePath) pre"
    and "candidates filePath = cpre @ c # cpost"
    and "list_all (\<lambda>c'. \<not> exists_in han w c') cpre"
    and "exists_in han w c"
  shows "ServeHTTP_loop w (pre @ han # post) filePath st
         = ServeFile han w c
             (logged (concat (map (\<lambda>h. calls_of h w (candidates filePath)) pre)
                      @ calls_of han w (cpre @ [c])) st)"
  using loop_skip [OF assms(1), of "han # post" st]
    loop_hit [OF assms(2-4), of post]
  by (simp add: logged_logged)

lemma not_misses_split:
  assumes "\<not> misses han w filePath"
  shows "\<exists>cpre c cpost. candidates filePath = cpre @ c # cpost
           \<and> list_all (\<lambda>c'. \<not> exists_in han w c') cpre \<and> exists_in han w c"
proof -
  have "\<exists>c \<in> set (candidates filePath). exists_in han w c"
    using assms by (auto simp: misses_def list_all_iff)
  then obtain cpre c cpost where "candidates filePath = cpre @ c # cpost"
    and "exists_in han w c" and "\<forall>c' \<in> set cpre. \<not> exists_in han w c'"
    by (auto simp: split_list_first_prop_iff)
  then show ?thesis by (auto simp: list_all_iff)
qed

section \<open>The archive source's existence test\<close>






section \<open>The plain source and the server's handler list\<close>

text \<open>
  C7 (amended). The plain source's existence test answers true for a candidate path if and
  only if \<^verbatim>\<open>os.Stat\<close> succeeds on that path and the result is not a directory (a regular
  file, but also a device, a pipe or a socket); an existing directory answers false, so a
  directory is never served directly: when the path is a directory, the path with
  \<^verbatim>\<open>.html\<close> appended does not pass the test and its \<^verbatim>\<open>index.html\<close> does, the loop serves
  that index file.
\<close>

theorem plain_exists_iff_not_directory:
  "fst (FileExists (PlainFileServer self) w filePath)
     = (\<exists>fi. os_Stat w filePath = Inr fi \<and> \<not> IsDir fi)
   \<and> ((\<exists>fi. os_Stat w filePath = Inr fi \<and> IsDir fi) \<longrightarrow>
        \<not> fst (FileExists (PlainFileServer self) w filePath)
        \<and> (\<not> fst (FileExists (PlainFileServer self) w (filePath @ ''.html''))
             \<and> fst (FileExists (PlainFileServer self) w (fpj [filePath, ''index.html''])) \<longrightarrow>
             ServeHTTP_loop w (PlainFileServer self # hans) filePath st
             = Inr (http_ServeFile w (fpj [filePath, ''index.html''])
                      (logged [StatCall filePath, StatCall (filePath @ ''.html''),
                               StatCall (fpj [filePath, ''index.html''])] st))))"
proof -
  let ?han = "PlainFileServer self"
  have ex: "\<And>p. fst (FileExists ?han w p) = (\<exists>fi. os_Stat w p = Inr fi \<and> \<not> IsDir fi)"
    by (simp add: PlainFileServer_def PlainFileServer_FileExists_def fileExists_fst)
  have calls: "calls_of ?han w (candidates filePath)
               = [StatCall filePath, StatCall (filePath @ ''.html''),
                  StatCall (fpj [filePath, ''index.html''])]"
    by (simp add: calls_of_def candidates_def PlainFileServer_def PlainFileServer_FileExists_def
          fileExists_def)
  have serve: "\<And>p s. ServeFile ?han w p s = Inr (http_ServeFile w p s)"
    by (simp add: PlainFileServer_def PlainFileServer_ServeFile_def)
  have index: "ServeHTTP_loop w (?han # hans) filePath st
         = Inr (http_ServeFile w (fpj [filePath, ''index.html''])
                  (logged [StatCall filePath, StatCall (filePath @ ''.html''),
                           StatCall (fpj [filePath, ''index.html''])] st))"
    if "\<not> fst (FileExists ?han w filePath)"
      and "\<not> fst (FileExists ?han w (filePath @ ''.html''))"
      and "fst (FileExists ?han w (fpj [filePath, ''index.html'']))"
    using loop_hit_index [of ?han w filePath hans st] that
    by (simp add: exists_in_def calls serve)
  have dir: "\<not> fst (FileExists ?han w filePath)"
    if "\<exists>fi. os_Stat w filePath = Inr fi \<and> IsDir fi"
    using that by (auto simp: ex)
  show ?thesis using ex [of filePath] dir index by blast
qed

theorem plain_exists_iff_not_directory_witness:
  "os_Stat site_world ''/srv/docs'' = Inr \<lparr>Mode = ModeDir, Size = 0\<rparr>
   \<and> \<not> fst (FileExists (PlainFileServer ''/srv'') site_world ''/srv/docs'')
   \<and> fst (FileExists (PlainFileServer ''/srv'') site_world ''/srv/docs/index.html'')
   \<and> ServeHTTP_loop site_world [PlainFileServer ''/srv''] ''/srv/docs'' (new_conn ''GET'' ''/docs'')
       = Inr (http_ServeFile site_world ''/srv/docs/index.html''
                (logged [StatCall ''/srv/docs'', StatCall ''/srv/docs.html'',
                         StatCall ''/srv/docs/index.html''] (new_conn ''GET'' ''/docs'')))"
proof -
  have join: "fpj [''/srv/docs'', ''index.html''] = ''/srv/docs/index.html''"
    by (simp add: fpj_def filepath_Join_def filepath_Clean_def Separator_def)
  have stat: "os_Stat site_world ''/srv/docs'' = Inr \<lparr>Mode = ModeDir, Size = 0\<rparr>"
    "os_Stat site_world ''/srv/docs.html'' = Inl ErrNotExist"
    "os_Stat site_world ''/srv/docs/index.html'' = Inr \<lparr>Mode = ModeRegular, Size = 4\<rparr>"
    by (simp_all add: os_Stat_def site_world_def mk_world_def)
  have ex: "\<And>p. fst (FileExists (PlainFileServer ''/srv'') site_world p)
                 = fst (fileExists site_world p)"
    by (simp add: PlainFileServer_def PlainFileServer_FileExists_def)
  show ?thesis
    using plain_exists_iff_not_directory
            [of "''/srv''" site_world "''/srv/docs''" "[]" "new_conn ''GET'' ''/docs''"]
    by (simp add: join stat ex fileExists_def IsDir_def)
qed

text \<open>A character device is not a regular file, and passes the test.\<close>

theorem plain_exists_regular_counterexample:
  "fst (FileExists (PlainFileServer ''/dev'') dev_world ''/dev/null'')
   \<and> os_Stat dev_world ''/dev/null'' = Inr \<lparr>Mode = ModeCharDevice, Size = 0\<rparr>
   \<and> \<not> IsRegular \<lparr>Mode = ModeCharDevice, Size = 0\<rparr>
   \<and> \<not> IsDir \<lparr>Mode = ModeCharDevice, Size = 0\<rparr>"
  by (simp add: PlainFileServer_def PlainFileServer_FileExists_def fileExists_def os_Stat_def
        dev_world_def mk_world_def IsDir_def IsRegular_def)

text \<open>
  C9. \<^verbatim>\<open>AppendHandler\<close> puts the given handler at the end of the list of handlers, keeps
  the handlers that were there in their order, leaves \<^verbatim>\<open>Dir\<close> as it was, and returns
  a server equal to the receiver after the call.
\<close>

theorem AppendHandler_appends:
  "Handlers (fst (AppendHandler self handler)) = Handlers self @ [handler]
   \<and> take (length (Handlers self)) (Handlers (fst (AppendHandler self handler))) = Handlers self
   \<and> last (Handlers (fst (AppendHandler self handler))) = handler
   \<and> length (Handlers (fst (AppendHandler self handler))) = Suc (length (Handlers self))
   \<and> Dir (fst (AppendHandler self handler)) = Dir self
   \<and> snd (AppendHandler self handler) = fst (AppendHandler self handler)"
  by (simp add: AppendHandler_def Let_def)

section \<open>Methods\<close>

text \<open>
  C6 (amended). For every request whose method is not GET, HEAD or OPTIONS the server
  answers with \<^verbatim>\<open>http.Error\<close>, status 405 and an empty message, and tests no candidate:
  no call is recorded and the request is unchanged. The body is not empty: on a fresh
  response it is the newline that \<^verbatim>\<open>http.Error\<close> prints after the message. For every
  HEAD or OPTIONS request the handler returns with the connection as it was: nothing
  is written (the server sends status 200 and no body) and no call is made.
\<close>

theorem other_methods_not_allowed:
  "(Method (req st) \<noteq> ''GET'' \<and> Method (req st) \<noteq> ''HEAD'' \<and> Method (req st) \<noteq> ''OPTIONS'' \<longrightarrow>
      ServeHTTP self w st = Inr (st\<lparr>rew := http_Error [] 405 (rew st)\<rparr>)
      \<and> (rew st = new_response \<longrightarrow>
           status (http_Error [] 405 (rew st)) = Some 405
           \<and> body (http_Error [] 405 (rew st)) = [CHR 0x0A]))
   \<and> (Method (req st) = ''HEAD'' \<or> Method (req st) = ''OPTIONS'' \<longrightarrow>
        ServeHTTP self w st = Inr st)"
  by (auto simp: ServeHTTP_def http_Error_def Write_def WriteHeader_def Header_Set_def
        new_response_def Let_def)

theorem other_methods_not_allowed_witness:
  "ServeHTTP \<lparr>Dir = ''/srv'', Handlers = []\<rparr> site_world (new_conn ''DELETE'' ''/x'')
     = Inr ((new_conn ''DELETE'' ''/x'')\<lparr>rew := http_Error [] 405 new_response\<rparr>)
   \<and> trace ((new_conn ''DELETE'' ''/x'')\<lparr>rew := http_Error [] 405 new_response\<rparr>) = []
   \<and> sent_status (http_Error [] 405 new_response) = 405
   \<and> body (http_Error [] 405 new_response) = [CHR 0x0A]
   \<and> ServeHTTP \<lparr>Dir = ''/srv'', Handlers = []\<rparr> site_world (new_conn ''HEAD'' ''/x'')
       = Inr (new_conn ''HEAD'' ''/x'')
   \<and> ServeHTTP \<lparr>Dir = ''/srv'', Handlers = []\<rparr> site_world (new_conn ''OPTIONS'' ''/x'')
       = Inr (new_conn ''OPTIONS'' ''/x'')
   \<and> sent_status (rew (new_conn ''HEAD'' ''/x'')) = 200
   \<and> body (rew (new_conn ''HEAD'' ''/x'')) = []
   \<and> trace (new_conn ''HEAD'' ''/x'') = []"
  using other_methods_not_allowed
          [of "new_conn ''DELETE'' ''/x''" "\<lparr>Dir = ''/srv'', Handlers = []\<rparr>" site_world]
        other_methods_not_allowed
          [of "new_conn ''HEAD'' ''/x''" "\<lparr>Dir = ''/srv'', Handlers = []\<rparr>" site_world]
        other_methods_not_allowed
          [of "new_conn ''OPTIONS'' ''/x''" "\<lparr>Dir = ''/srv'', Handlers = []\<rparr>" site_world]
  by (simp add: new_conn_def sent_status_def new_response_def)

text \<open>The reply to a POST has a body of one byte.\<close>

theorem method_not_allowed_body_counterexample:
  "\<exists>st'. ServeHTTP \<lparr>Dir = ''/srv'', Handlers = []\<rparr> site_world (new_conn ''POST'' ''/x'') = Inr st'
         \<and> status (rew st') = Some 405
         \<and> body (rew st') = [CHR 0x0A]
         \<and> body (rew st') \<noteq> []"
  by (simp add: ServeHTTP_def new_conn_def http_Error_def Write_def WriteHeader_def
        Header_Set_def new_response_def Let_def)

section \<open>Errors of the archive source\<close>

text \<open>
  C3 (amended). When the archive source serves a candidate, every error of opening the
  container or the inner entry that is outside the \<^verbatim>\<open>ErrNotExist\<close>/\<^verbatim>\<open>ErrPermission\<close>
  class is fatal: the request panics with that error and is not answered with the
  not-found page. A corrupt container (\<^verbatim>\<open>zip.ErrFormat\<close>) is such an error.
\<close>

theorem zip_other_errors_fatal:
  "(zip_OpenReader w (fst (splitFilePathWithExt filePath ZIP_EXT)) = Inl err
      \<and> err \<noteq> ErrNotExist \<and> err \<noteq> ErrPermission \<longrightarrow>
      ZipFileServer_ServeFile self w filePath st = Inl (PanicErr err))
   \<and> (zip_OpenReader w (fst (splitFilePathWithExt filePath ZIP_EXT)) = Inr zipReader
        \<and> zipReader (snd (splitFilePathWithExt filePath ZIP_EXT)) = Inl err
        \<and> err \<noteq> ErrNotExist \<and> err \<noteq> ErrPermission \<longrightarrow>
        ZipFileServer_ServeFile self w filePath st = Inl (PanicErr err))"
  by (cases "splitFilePathWithExt filePath ZIP_EXT")
     (simp add: ZipFileServer_ServeFile_def errNotExistOrPanic_def Let_def)

lemma split_bad_zip:
  "splitFilePathWithExt ''srv/bad.zip/index.html'' ZIP_EXT = (''srv/bad.zip'', ''index.html'')"
proof -
  have segs: "strings_Split ''srv/bad.zip/index.html'' Separator
              = [''srv'', ''bad.zip'', ''index.html'']"
    by (simp add: Separator_def)
  show ?thesis
    unfolding splitFilePathWithExt_def segs
    by (simp add: splitLoop.simps filepath_Ext_def ZIP_EXT_def Separator_def
          filepath_Join_def filepath_Clean_def)
qed

lemma split_a_zip:
  "splitFilePathWithExt ''srv/a.zip'' ZIP_EXT = (''srv/a.zip'', [])"
proof -
  have segs: "strings_Split ''srv/a.zip'' Separator = [''srv'', ''a.zip'']"
    by (simp add: Separator_def)
  show ?thesis
    unfolding splitFilePathWithExt_def segs
    by (simp add: splitLoop.simps filepath_Ext_def ZIP_EXT_def Separator_def
          filepath_Join_def filepath_Clean_def)
qed

lemma split_gone_zip:
  "splitFilePathWithExt ''srv/gone.zip/index.html'' ZIP_EXT = (''srv/gone.zip'', ''index.html'')"
proof -
  have segs: "strings_Split ''srv/gone.zip/index.html'' Separator
              = [''srv'', ''gone.zip'', ''index.html'']"
    by (simp add: Separator_def)
  show ?thesis
    unfolding splitFilePathWithExt_def segs
    by (simp add: splitLoop.simps filepath_Ext_def ZIP_EXT_def Separator_def
          filepath_Join_def filepath_Clean_def)
qed

theorem zip_other_errors_fatal_witness:
  "zip_OpenReader zip_world ''srv/bad.zip'' = Inl ErrFormat
   \<and> ZipFileServer_ServeFile ''srv'' zip_world ''srv/bad.zip/index.html''
        (new_conn ''GET'' ''/bad.zip/index.html'') = Inl (PanicErr ErrFormat)
   \<and> (\<exists>zipReader. zip_OpenReader zip_world ''srv/a.zip'' = Inr zipReader
          \<and> zipReader [] = Inl ErrInvalid)
   \<and> ZipFileServer_ServeFile ''srv'' zip_world ''srv/a.zip'' (new_conn ''GET'' ''/a.zip'')
       = Inl (PanicErr ErrInvalid)"
proof -
  have bad: "zip_OpenReader zip_world ''srv/bad.zip'' = Inl ErrFormat"
    by (simp add: zip_OpenReader_def zip_world_def mk_world_def)
  obtain zipReader where good: "zip_OpenReader zip_world ''srv/a.zip'' = Inr zipReader"
    and entry: "zipReader [] = Inl ErrInvalid"
    by (simp add: zip_OpenReader_def zip_world_def mk_world_def)
  have one: "ZipFileServer_ServeFile ''srv'' zip_world ''srv/bad.zip/index.html''
               (new_conn ''GET'' ''/bad.zip/index.html'') = Inl (PanicErr ErrFormat)"
    using zip_other_errors_fatal
            [of zip_world "''srv/bad.zip/index.html''" ErrFormat "''srv''"
                "new_conn ''GET'' ''/bad.zip/index.html''", THEN conjunct1]
    by (simp add: split_bad_zip bad)
  have two: "ZipFileServer_ServeFile ''srv'' zip_world ''srv/a.zip'' (new_conn ''GET'' ''/a.zip'')
             = Inl (PanicErr ErrInvalid)"
    using zip_other_errors_fatal
            [of zip_world "''srv/a.zip''" ErrInvalid "''srv''" "new_conn ''GET'' ''/a.zip''" zipReader,
             THEN conjunct2]
    by (simp add: split_a_zip good entry)
  show ?thesis using bad good entry one two by simp
qed

text \<open>A corrupt container is not answered with the not-found page: the request panics.
  So does a container that is absent.\<close>

theorem zip_corrupt_not_found_counterexample:
  "zip_OpenReader zip_world ''srv/bad.zip'' = Inl ErrFormat
   \<and> ZipFileServer_ServeFile ''srv'' zip_world ''srv/bad.zip/index.html''
        (new_conn ''GET'' ''/bad.zip/index.html'') = Inl (PanicErr ErrFormat)
   \<and> ZipFileServer_ServeFile ''srv'' zip_world ''srv/bad.zip/index.html''
        (new_conn ''GET'' ''/bad.zip/index.html'')
       \<noteq> NotFoundFileServer_ServeFile ''srv'' zip_world ''srv/bad.zip/index.html''
           (logged [OpenReaderCall ''srv/bad.zip''] (new_conn ''GET'' ''/bad.zip/index.html''))
   \<and> zip_OpenReader zip_world ''srv/gone.zip'' = Inl ErrNotExist
   \<and> ZipFileServer_ServeFile ''srv'' zip_world ''srv/gone.zip/index.html''
        (new_conn ''GET'' ''/gone.zip/index.html'') = Inl NilDereference"
  by (simp add: ZipFileServer_ServeFile_def split_bad_zip split_gone_zip zip_OpenReader_def
        zip_world_def mk_world_def errNotExistOrPanic_def NotFoundFileServer_ServeFile_def Let_def)

section \<open>Resolution\<close>

lemma ServeHTTP_GET:
  "Method (req st) = ''GET''
   \<Longrightarrow> ServeHTTP self w st
       = ServeHTTP_loop w (PlainFileServer (Dir self) # Handlers self)
           (fpj [Dir self, URL_Path (req st)]) st"
  by (simp add: ServeHTTP_def Let_def)

lemma plain_calls: "calls_of (PlainFileServer self) w paths = map StatCall paths"
  by (induction paths)
     (simp_all add: calls_of_def PlainFileServer_def PlainFileServer_FileExists_def fileExists_def)

lemma plain_exists: "exists_in (PlainFileServer self) w path = fst (fileExists w path)"
  by (simp add: exists_in_def PlainFileServer_def PlainFileServer_FileExists_def)

lemma plain_serve: "ServeFile (PlainFileServer self) w path st = Inr (http_ServeFile w path st)"
  by (simp add: PlainFileServer_def PlainFileServer_ServeFile_def)

lemma notfound_calls:
  "calls_of (NotFoundFileServer self) w paths
   = map (\<lambda>path. StatCall (fpj [self, ''404.html''])) paths"
  by (induction paths)
     (simp_all add: calls_of_def NotFoundFileServer_def NotFoundFileServer_FileExists_def
        NotFoundFileServer_filePath_def fileExists_def)

lemma notfound_exists:
  "exists_in (NotFoundFileServer self) w path = fst (fileExists w (fpj [self, ''404.html'']))"
  by (simp add: exists_in_def NotFoundFileServer_def NotFoundFileServer_FileExists_def
        NotFoundFileServer_filePath_def)

lemma notfound_serve:
  "ServeFile (NotFoundFileServer self) w path st
   = Inr (http_ServeFile w (fpj [self, ''404.html'']) st)"
  by (simp add: NotFoundFileServer_def NotFoundFileServer_ServeFile_def
        NotFoundFileServer_filePath_def)

text \<open>
  C1. For every GET request the loop asks each source about the candidates in one fixed
  order: the joined path, then the path with \<^verbatim>\<open>.html\<close> appended, then the path joined
  with the segment \<^verbatim>\<open>index.html\<close>. When the sources before \<open>han\<close> answer no to all
  three candidates, \<open>han\<close> answers no to the candidates before \<open>c\<close> and yes to \<open>c\<close>,
  the result of the request is the result of \<open>han\<close> serving \<open>c\<close>, and the calls recorded
  until then are exactly those of the tests made, in that order: nothing is asked after
  the first yes. No condition is put on the request path: the three candidates are tried
  whether or not it has an extension.
\<close>

theorem first_existing_candidate_served:
  assumes "Method (req st) = ''GET''"
    and "filePath = fpj [Dir self, URL_Path (req st)]"
    and "PlainFileServer (Dir self) # Handlers self = pre @ han # post"
    and "\<forall>h \<in> set pre.
           \<forall>c' \<in> set [filePath, filePath @ ''.html'', fpj [filePath, ''index.html'']].
             \<not> fst (FileExists h w c')"
    and "[filePath, filePath @ ''.html'', fpj [filePath, ''index.html'']] = cpre @ c # cpost"
    and "\<forall>c' \<in> set cpre. \<not> fst (FileExists han w c')"
    and "fst (FileExists han w c)"
  shows "ServeHTTP self w st
         = ServeFile han w c
             (logged
                (concat (map (\<lambda>h. calls_of h w
                                [filePath, filePath @ ''.html'', fpj [filePath, ''index.html'']]) pre)
                 @ calls_of han w (cpre @ [c])) st)"
proof -
  have pre: "list_all (\<lambda>h. misses h w filePath) pre"
    using assms(4) by (simp add: misses_def exists_in_def candidates_def list_all_iff)
  have split: "candidates filePath = cpre @ c # cpost"
    using assms(5) by (simp add: candidates_def)
  have before: "list_all (\<lambda>c'. \<not> exists_in han w c') cpre"
    using assms(6) by (simp add: exists_in_def list_all_iff)
  have hit: "exists_in han w c"
    using assms(7) by (simp add: exists_in_def)
  have "ServeHTTP self w st = ServeHTTP_loop w (pre @ han # post) filePath st"
    by (simp only: ServeHTTP_GET [OF assms(1)] assms(2) [symmetric] assms(3))
  also have "\<dots> = ServeFile han w c
      (logged (concat (map (\<lambda>h. calls_of h w (candidates filePath)) pre)
               @ calls_of han w (cpre @ [c])) st)"
    by (rule loop_first_hit [OF pre split before hit])
  finally show ?thesis by (simp add: candidates_def)
qed

lemma join_srv_notes: "fpj [''/srv'', ''/notes.txt''] = ''/srv/notes.txt''"
  by (simp add: fpj_def filepath_Join_def filepath_Clean_def Separator_def)

lemma join_notes_index: "fpj [''/srv/notes.txt'', ''index.html''] = ''/srv/notes.txt/index.html''"
  by (simp add: fpj_def filepath_Join_def filepath_Clean_def Separator_def)

lemma site_stat_notes:
  "os_Stat site_world ''/srv/notes.txt'' = Inl ErrNotExist"
  "os_Stat site_world ''/srv/notes.txt.html'' = Inr \<lparr>Mode = ModeRegular, Size = 5\<rparr>"
  by (simp_all add: os_Stat_def site_world_def mk_world_def)

theorem first_existing_candidate_served_witness:
  "filepath_Ext ''/notes.txt'' = ''.txt''
   \<and> ServeHTTP \<lparr>Dir = ''/srv'', Handlers = []\<rparr> site_world (new_conn ''GET'' ''/notes.txt'')
       = Inr (http_ServeFile site_world ''/srv/notes.txt.html''
                (logged [StatCall ''/srv/notes.txt'', StatCall ''/srv/notes.txt.html'']
                   (new_conn ''GET'' ''/notes.txt'')))"
proof -
  have ext: "filepath_Ext ''/notes.txt'' = ''.txt''"
    by (simp add: filepath_Ext_def Separator_def)
  have "ServeHTTP \<lparr>Dir = ''/srv'', Handlers = []\<rparr> site_world (new_conn ''GET'' ''/notes.txt'')
        = ServeFile (PlainFileServer ''/srv'') site_world ''/srv/notes.txt.html''
            (logged (concat (map (\<lambda>h. calls_of h site_world
                       [''/srv/notes.txt'', ''/srv/notes.txt'' @ ''.html'',
                        fpj [''/srv/notes.txt'', ''index.html'']]) [])
                     @ calls_of (PlainFileServer ''/srv'') site_world
                         ([''/srv/notes.txt''] @ [''/srv/notes.txt.html'']))
               (new_conn ''GET'' ''/notes.txt''))"
    by (rule first_existing_candidate_served
               [where pre = "[]" and post = "[]" and cpost = "[''/srv/notes.txt/index.html'']"])
       (simp_all add: new_conn_def join_srv_notes join_notes_index PlainFileServer_def
          PlainFileServer_FileExists_def fileExists_def site_stat_notes IsDir_def)
  then show ?thesis by (simp add: ext plain_calls plain_serve)
qed

text \<open>
  C4. For every GET request the list of sources consulted is the plain source over
  \<^verbatim>\<open>Dir\<close> followed by the handlers in the order in which they were appended (a handler
  appended with \<^verbatim>\<open>AppendHandler\<close> is consulted last). Precedence is by source: when the
  source at position \<open>i\<close> of that list is the first one that answers yes to any of its
  three candidates, the request is served by that source, on its first candidate that
  exists, and no later source is asked, whatever the later sources would answer, an exact
  match included.
\<close>

theorem earlier_source_wins:
  assumes "Method (req st) = ''GET''"
    and "filePath = fpj [Dir self, URL_Path (req st)]"
    and "hans = PlainFileServer (Dir self) # Handlers self"
    and "i < length hans"
    and "\<forall>k < i. misses (hans ! k) w filePath"
    and "\<not> misses (hans ! i) w filePath"
  shows "ServeHTTP self w st = ServeHTTP_loop w hans filePath st
         \<and> ServeHTTP (fst (AppendHandler self handler)) w st
             = ServeHTTP_loop w (hans @ [handler]) filePath st
         \<and> (\<exists>cpre c cpost.
               candidates filePath = cpre @ c # cpost
               \<and> list_all (\<lambda>c'. \<not> exists_in (hans ! i) w c') cpre
               \<and> exists_in (hans ! i) w c
               \<and> ServeHTTP self w st
                   = ServeFile (hans ! i) w c
                       (logged
                          (concat (map (\<lambda>h. calls_of h w (candidates filePath)) (take i hans))
                           @ calls_of (hans ! i) w (cpre @ [c])) st))"
proof -
  have loop: "ServeHTTP self w st = ServeHTTP_loop w hans filePath st"
    by (simp only: ServeHTTP_GET [OF assms(1)] assms(2) [symmetric] assms(3) [symmetric])
  have "ServeHTTP (fst (AppendHandler self handler)) w st
        = ServeHTTP_loop w
            (PlainFileServer (Dir (fst (AppendHandler self handler)))
               # Handlers (fst (AppendHandler self handler)))
            (fpj [Dir (fst (AppendHandler self handler)), URL_Path (req st)]) st"
    by (rule ServeHTTP_GET [OF assms(1)])
  also have "\<dots> = ServeHTTP_loop w (hans @ [handler]) filePath st"
    by (simp add: AppendHandler_def Let_def assms(2,3))
  finally have appended: "ServeHTTP (fst (AppendHandler self handler)) w st
                          = ServeHTTP_loop w (hans @ [handler]) filePath st" .
  have parts: "hans = take i hans @ hans ! i # drop (Suc i) hans"
    using assms(4) by (simp add: id_take_nth_drop)
  have pre: "list_all (\<lambda>h. misses h w filePath) (take i hans)"
    using assms(4,5) by (auto simp: list_all_length)
  obtain cpre c cpost where split: "candidates filePath = cpre @ c # cpost"
    and before: "list_all (\<lambda>c'. \<not> exists_in (hans ! i) w c') cpre"
    and hit: "exists_in (hans ! i) w c"
    using not_misses_split [OF assms(6)] by blast
  have "ServeHTTP_loop w (take i hans @ hans ! i # drop (Suc i) hans) filePath st
        = ServeFile (hans ! i) w c
            (logged (concat (map (\<lambda>h. calls_of h w (candidates filePath)) (take i hans))
                     @ calls_of (hans ! i) w (cpre @ [c])) st)"
    by (rule loop_first_hit [OF pre split before hit])
  then have "ServeHTTP self w st
        = ServeFile (hans ! i) w c
            (logged (concat (map (\<lambda>h. calls_of h w (candidates filePath)) (take i hans))
                     @ calls_of (hans ! i) w (cpre @ [c])) st)"
    using loop parts by simp
  then show ?thesis using loop appended split before hit by blast
qed

lemma join_srv_x: "fpj [''/srv'', ''/x''] = ''/srv/x''"
  by (simp add: fpj_def filepath_Join_def filepath_Clean_def Separator_def)

lemma join_x_index: "fpj [''/srv/x'', ''index.html''] = ''/srv/x/index.html''"
  by (simp add: fpj_def filepath_Join_def filepath_Clean_def Separator_def)

lemma join_srv_404: "fpj [''/srv'', ''404.html''] = ''/srv/404.html''"
  by (simp add: fpj_def filepath_Join_def filepath_Clean_def Separator_def)

lemma site_stat_x:
  "os_Stat site_world ''/srv/x'' = Inl ErrNotExist"
  "os_Stat site_world ''/srv/x.html'' = Inr \<lparr>Mode = ModeRegular, Size = 6\<rparr>"
  "os_Stat site_world ''/srv/404.html'' = Inr \<lparr>Mode = ModeRegular, Size = 4\<rparr>"
  by (simp_all add: os_Stat_def site_world_def mk_world_def)

text \<open>The plain source finds \<^verbatim>\<open>/srv/x.html\<close> only; the not-found source behind it answers
  yes to the exact path, and is never asked.\<close>

theorem earlier_source_wins_witness:
  "\<not> exists_in (PlainFileServer ''/srv'') site_world ''/srv/x''
   \<and> exists_in (PlainFileServer ''/srv'') site_world ''/srv/x.html''
   \<and> exists_in (NotFoundFileServer ''/srv'') site_world ''/srv/x''
   \<and> ServeHTTP \<lparr>Dir = ''/srv'', Handlers = [NotFoundFileServer ''/srv'']\<rparr> site_world
        (new_conn ''GET'' ''/x'')
       = Inr (http_ServeFile site_world ''/srv/x.html''
                (logged [StatCall ''/srv/x'', StatCall ''/srv/x.html''] (new_conn ''GET'' ''/x'')))"
proof -
  let ?self = "\<lparr>Dir = ''/srv'', Handlers = [NotFoundFileServer ''/srv'']\<rparr>"
  let ?st = "new_conn ''GET'' ''/x''"
  let ?hans = "[PlainFileServer ''/srv'', NotFoundFileServer ''/srv'']"
  have no: "\<not> exists_in (PlainFileServer ''/srv'') site_world ''/srv/x''"
    and yes: "exists_in (PlainFileServer ''/srv'') site_world ''/srv/x.html''"
    and nf: "exists_in (NotFoundFileServer ''/srv'') site_world ''/srv/x''"
    by (simp_all add: plain_exists notfound_exists join_srv_404 fileExists_def site_stat_x IsDir_def)
  have cands: "candidates ''/srv/x'' = [''/srv/x'', ''/srv/x.html'', ''/srv/x/index.html'']"
    by (simp add: candidates_def join_x_index)
  have hit: "\<not> misses (?hans ! 0) site_world ''/srv/x''"
    using yes by (simp add: misses_def cands)
  from earlier_source_wins [of ?st "''/srv/x''" ?self ?hans 0 site_world, THEN conjunct2, THEN conjunct2]
  obtain cpre c cpost where split: "candidates ''/srv/x'' = cpre @ c # cpost"
    and before: "list_all (\<lambda>c'. \<not> exists_in (PlainFileServer ''/srv'') site_world c') cpre"
    and c: "exists_in (PlainFileServer ''/srv'') site_world c"
    and served: "ServeHTTP ?self site_world ?st
                 = ServeFile (PlainFileServer ''/srv'') site_world c
                     (logged (calls_of (PlainFileServer ''/srv'') site_world (cpre @ [c])) ?st)"
    using hit by (auto simp: new_conn_def join_srv_x)
  have "cpre = [''/srv/x''] \<and> c = ''/srv/x.html''"
  proof -
    have three: "[''/srv/x'', ''/srv/x.html'', ''/srv/x/index.html''] = cpre @ c # cpost"
      using split by (simp only: cands)
    consider "cpre = []" "c = ''/srv/x''" | "cpre = [''/srv/x'']" "c = ''/srv/x.html''"
      | "cpre = [''/srv/x'', ''/srv/x.html'']"
      using three by (auto simp: Cons_eq_append_conv)
    then show ?thesis
    proof cases
      case 1
      then show ?thesis using c no by simp
    next
      case 2
      then show ?thesis by simp
    next
      case 3
      then show ?thesis using before yes by simp
    qed
  qed
  then show ?thesis using served no yes nf by (simp add: plain_calls plain_serve)
qed

section \<open>No source matches\<close>

text \<open>
  C2 (amended). For every GET request for which no source of the list (the plain source
  over \<^verbatim>\<open>Dir\<close>, then the handlers) reports existence for any of the three candidates,
  the engine serves nothing: the handler returns with the response and the request
  untouched, having made only the calls of the existence tests; \<^verbatim>\<open>404.html\<close> is not
  looked at. The file \<^verbatim>\<open>404.html\<close> under \<^verbatim>\<open>Dir\<close> is served, through \<^verbatim>\<open>http.ServeFile\<close>
  on that file whatever the candidate, when a \<^verbatim>\<open>NotFoundFileServer\<close> over \<^verbatim>\<open>Dir\<close> is the
  last handler, no source before it matches and the file passes the existence test.
\<close>

theorem no_match_serves_nothing:
  assumes "Method (req st) = ''GET''"
    and "filePath = fpj [Dir self, URL_Path (req st)]"
  shows "(list_all (\<lambda>h. misses h w filePath) (PlainFileServer (Dir self) # Handlers self) \<longrightarrow>
            (\<exists>st'. ServeHTTP self w st = Inr st'
                   \<and> rew st' = rew st \<and> req st' = req st
                   \<and> trace st' = trace st
                        @ concat (map (\<lambda>h. calls_of h w (candidates filePath))
                                    (PlainFileServer (Dir self) # Handlers self))))
         \<and> (Handlers self = hs @ [NotFoundFileServer (Dir self)]
              \<and> list_all (\<lambda>h. misses h w filePath) (PlainFileServer (Dir self) # hs)
              \<and> fst (fileExists w (fpj [Dir self, ''404.html''])) \<longrightarrow>
              ServeHTTP self w st
              = Inr (http_ServeFile w (fpj [Dir self, ''404.html''])
                       (logged
                          (concat (map (\<lambda>h. calls_of h w (candidates filePath))
                                     (PlainFileServer (Dir self) # hs))
                           @ [StatCall (fpj [Dir self, ''404.html''])]) st)))"
proof (intro conjI impI)
  assume all: "list_all (\<lambda>h. misses h w filePath) (PlainFileServer (Dir self) # Handlers self)"
  have "ServeHTTP self w st
        = ServeHTTP_loop w (PlainFileServer (Dir self) # Handlers self) filePath st"
    by (simp only: ServeHTTP_GET [OF assms(1)] assms(2) [symmetric])
  also have "\<dots> = Inr (logged (concat (map (\<lambda>h. calls_of h w (candidates filePath))
                                     (PlainFileServer (Dir self) # Handlers self))) st)"
    by (rule loop_all_miss [OF all])
  finally show "\<exists>st'. ServeHTTP self w st = Inr st'
                   \<and> rew st' = rew st \<and> req st' = req st
                   \<and> trace st' = trace st
                        @ concat (map (\<lambda>h. calls_of h w (candidates filePath))
                                    (PlainFileServer (Dir self) # Handlers self))"
    by (simp only: logged_fields sum.inject simp_thms ex_simps)
next
  let ?nf = "NotFoundFileServer (Dir self)"
  assume a: "Handlers self = hs @ [?nf]
             \<and> list_all (\<lambda>h. misses h w filePath) (PlainFileServer (Dir self) # hs)
             \<and> fst (fileExists w (fpj [Dir self, ''404.html'']))"
  have pre: "list_all (\<lambda>h. misses h w filePath) (PlainFileServer (Dir self) # hs)"
    using a by simp
  have split: "candidates filePath
               = [] @ filePath # [filePath @ ''.html'', fpj [filePath, ''index.html'']]"
    by (simp add: candidates_def)
  have hit: "exists_in ?nf w filePath"
    using a by (simp add: notfound_exists)
  have "ServeHTTP self w st
        = ServeHTTP_loop w ((PlainFileServer (Dir self) # hs) @ ?nf # []) filePath st"
    using a by (simp only: ServeHTTP_GET [OF assms(1)] assms(2) [symmetric] append_Cons)
  also have "\<dots> = ServeFile ?nf w filePath
      (logged (concat (map (\<lambda>h. calls_of h w (candidates filePath)) (PlainFileServer (Dir self) # hs))
               @ calls_of ?nf w ([] @ [filePath])) st)"
    by (rule loop_first_hit [OF pre split _ hit]) simp
  finally show "ServeHTTP self w st
              = Inr (http_ServeFile w (fpj [Dir self, ''404.html''])
                       (logged
                          (concat (map (\<lambda>h. calls_of h w (candidates filePath))
                                     (PlainFileServer (Dir self) # hs))
                           @ [StatCall (fpj [Dir self, ''404.html''])]) st))"
    by (simp add: notfound_serve notfound_calls)
qed

lemma join_srv_missing: "fpj [''/srv'', ''/missing''] = ''/srv/missing''"
  by (simp add: fpj_def filepath_Join_def filepath_Clean_def Separator_def)

lemma join_missing_index: "fpj [''/srv/missing'', ''index.html''] = ''/srv/missing/index.html''"
  by (simp add: fpj_def filepath_Join_def filepath_Clean_def Separator_def)

lemma site_stat_missing:
  "os_Stat site_world ''/srv/missing'' = Inl ErrNotExist"
  "os_Stat site_world ''/srv/missing.html'' = Inl ErrNotExist"
  "os_Stat site_world ''/srv/missing/index.html'' = Inl ErrNotExist"
  by (simp_all add: os_Stat_def site_world_def mk_world_def)

lemma site_plain_misses: "misses (PlainFileServer ''/srv'') site_world ''/srv/missing''"
  by (simp add: misses_def candidates_def join_missing_index plain_exists fileExists_def
        site_stat_missing)

theorem no_match_serves_nothing_witness:
  "fst (fileExists site_world ''/srv/404.html'')
   \<and> (\<exists>st'. ServeHTTP \<lparr>Dir = ''/srv'', Handlers = []\<rparr> site_world (new_conn ''GET'' ''/missing'')
              = Inr st'
            \<and> rew st' = new_response
            \<and> trace st' = [StatCall ''/srv/missing'', StatCall ''/srv/missing.html'',
                            StatCall ''/srv/missing/index.html''])
   \<and> ServeHTTP \<lparr>Dir = ''/srv'', Handlers = [NotFoundFileServer ''/srv'']\<rparr> site_world
        (new_conn ''GET'' ''/missing'')
       = Inr (http_ServeFile site_world ''/srv/404.html''
                (logged [StatCall ''/srv/missing'', StatCall ''/srv/missing.html'',
                         StatCall ''/srv/missing/index.html'', StatCall ''/srv/404.html'']
                   (new_conn ''GET'' ''/missing'')))
   \<and> body (rew (http_ServeFile site_world ''/srv/404.html'' (new_conn ''GET'' ''/missing'')))
       = ''gone''"
proof -
  have nf: "fst (fileExists site_world ''/srv/404.html'')"
    by (simp add: fileExists_def site_stat_x IsDir_def)
  have one: "\<exists>st'. ServeHTTP \<lparr>Dir = ''/srv'', Handlers = []\<rparr> site_world
                      (new_conn ''GET'' ''/missing'') = Inr st'
            \<and> rew st' = new_response
            \<and> trace st' = [StatCall ''/srv/missing'', StatCall ''/srv/missing.html'',
                            StatCall ''/srv/missing/index.html'']"
    using no_match_serves_nothing
            [of "new_conn ''GET'' ''/missing''" "''/srv/missing''"
                "\<lparr>Dir = ''/srv'', Handlers = []\<rparr>" site_world, THEN conjunct1]
          site_plain_misses
    by (auto simp: new_conn_def join_srv_missing plain_calls candidates_def join_missing_index)
  have two: "ServeHTTP \<lparr>Dir = ''/srv'', Handlers = [NotFoundFileServer ''/srv'']\<rparr> site_world
        (new_conn ''GET'' ''/missing'')
       = Inr (http_ServeFile site_world ''/srv/404.html''
                (logged [StatCall ''/srv/missing'', StatCall ''/srv/missing.html'',
                         StatCall ''/srv/missing/index.html'', StatCall ''/srv/404.html'']
                   (new_conn ''GET'' ''/missing'')))"
    using no_match_serves_nothing
            [of "new_conn ''GET'' ''/missing''" "''/srv/missing''"
                "\<lparr>Dir = ''/srv'', Handlers = [NotFoundFileServer ''/srv'']\<rparr>" site_world "[]",
             THEN conjunct2]
          site_plain_misses nf
    by (simp add: new_conn_def join_srv_missing join_srv_404 plain_calls candidates_def
          join_missing_index)
  have three: "body (rew (http_ServeFile site_world ''/srv/404.html'' (new_conn ''GET'' ''/missing'')))
               = ''gone''"
    by (simp add: http_ServeFile_def logged_def new_conn_def site_world_def mk_world_def
          demo_serve_def Write_def WriteHeader_def new_response_def Let_def)
  show ?thesis using nf one two three by blast
qed

text \<open>With no handler configured, a request that matches nothing gets an empty response
  although \<^verbatim>\<open>/srv/404.html\<close> is there: the file is not served.\<close>

theorem not_found_page_counterexample:
  "fst (fileExists site_world ''/srv/404.html'')
   \<and> body (rew (http_ServeFile site_world ''/srv/404.html'' (new_conn ''GET'' ''/missing''))) = ''gone''
   \<and> misses (PlainFileServer ''/srv'') site_world ''/srv/missing''
   \<and> (\<exists>st'. ServeHTTP \<lparr>Dir = ''/srv'', Handlers = []\<rparr> site_world (new_conn ''GET'' ''/missing'')
              = Inr st'
            \<and> body (rew st') = []
            \<and> status (rew st') = None
            \<and> ServeFileCall ''/missing'' ''/srv/404.html'' \<notin> set (trace st'))"
proof -
  have nf: "fst (fileExists site_world ''/srv/404.html'')"
    by (simp add: fileExists_def site_stat_x IsDir_def)
  have page: "body (rew (http_ServeFile site_world ''/srv/404.html'' (new_conn ''GET'' ''/missing'')))
               = ''gone''"
    by (simp add: http_ServeFile_def logged_def new_conn_def site_world_def mk_world_def
          demo_serve_def Write_def WriteHeader_def new_response_def Let_def)
  have "ServeHTTP \<lparr>Dir = ''/srv'', Handlers = []\<rparr> site_world (new_conn ''GET'' ''/missing'')
        = ServeHTTP_loop site_world [PlainFileServer ''/srv''] ''/srv/missing''
            (new_conn ''GET'' ''/missing'')"
    by (simp add: ServeHTTP_def new_conn_def join_srv_missing Let_def del: ServeHTTP_loop.simps)
  also have "\<dots> = Inr (logged (concat (map (\<lambda>h. calls_of h site_world (candidates ''/srv/missing''))
                                     [PlainFileServer ''/srv''])) (new_conn ''GET'' ''/missing''))"
    by (rule loop_all_miss) (simp add: site_plain_misses)
  finally have "ServeHTTP \<lparr>Dir = ''/srv'', Handlers = []\<rparr> site_world (new_conn ''GET'' ''/missing'')
        = Inr (logged [StatCall ''/srv/missing'', StatCall ''/srv/missing.html'',
                       StatCall ''/srv/missing/index.html''] (new_conn ''GET'' ''/missing''))"
    by (simp add: plain_calls candidates_def join_missing_index)
  then show ?thesis using nf page site_plain_misses
    by (simp add: logged_def new_conn_def new_response_def)
qed

end
